theory Spec2Isabelle
  imports Main
begin

section \<open>gotcpspy: a logging TCP relay\<close>

text \<open>
  The program (\<^verbatim>\<open>gotcpspy.go\<close>) accepts TCP connections, dials a target for each of
  them, copies the bytes of both directions and records them in three log files per
  connection. Every goroutine of the program is embedded as a function from what its
  blocking calls return (the chunks a channel delivers, the results of \<^verbatim>\<open>Read\<close>, the
  completion signals) to the trace of what it does, one event per statement.
\<close>

subsection \<open>Bytes and log sinks\<close>

text \<open>A Go \<^verbatim>\<open>[]byte\<close> value is a list of bytes; a byte is a \<^typ>\<open>char\<close>.\<close>

type_synonym bytes = string

text \<open>
  What a log sink does to the file system, in order. \<^verbatim>\<open>Recv\<close> is the receive
  \<^verbatim>\<open>b := <-data\<close>; \<^verbatim>\<open>Stderr\<close> and \<^verbatim>\<open>Exit\<close> are the two statements of \<^verbatim>\<open>die\<close>.
\<close>

datatype sink_event =
    Create string
  | Recv bytes
  | FWrite bytes
  | FSync
  | FClose
  | Stderr string "string list"
  | Exit int

text \<open>
  How far a sink has come when the chunks observed on its channel are used up:
  blocked in the receive, returned after \<^verbatim>\<open>break\<close>, or gone with the whole process.
\<close>

datatype sink_status = Receiving | Returned | Died

text \<open>
  The \<^verbatim>\<open>for\<close> loop of \<^verbatim>\<open>logger_loop\<close> (lines 60 to 67), over the chunks that the channel
  delivers. The results of \<^verbatim>\<open>f.Write\<close> and \<^verbatim>\<open>f.Sync\<close> are dropped, as in the source.
\<close>

fun logger_for :: "bytes list \<Rightarrow> sink_event list \<times> sink_status" where
  "logger_for [] = ([], Receiving)"
| "logger_for (b # data) =
     (if length b = 0 then ([Recv b], Returned)
      else (case logger_for data of
              (evs, st) \<Rightarrow> (Recv b # FWrite b # FSync # evs, st)))"

text \<open>
  \<^verbatim>\<open>die\<close> (lines 34 to 37): the message on standard error, then exit status 1. The
  message is kept as the format (with the newline \<^verbatim>\<open>die\<close> appends) and its arguments.
\<close>

definition die :: "string \<Rightarrow> string list \<Rightarrow> sink_event list" where
  "die format v = [Stderr (format @ ''\<newline>'') v, Exit 1]"

text \<open>
  \<^verbatim>\<open>logger_loop\<close> (lines 54 to 68). \<open>create_err\<close> is the error of \<^verbatim>\<open>os.Create\<close>, if any.
  The deferred \<^verbatim>\<open>f.Close()\<close> runs when the function returns, that is after \<^verbatim>\<open>break\<close>.
\<close>

definition logger_loop :: "string option \<Rightarrow> bytes list \<Rightarrow> string \<Rightarrow> sink_event list \<times> sink_status" where
  "logger_loop create_err data log_name =
     (case create_err of
        Some err \<Rightarrow> (Create log_name # die ''Unable to create file %s, %v\<newline>'' [log_name, err], Died)
      | None \<Rightarrow>
          (case logger_for data of
             (evs, st) \<Rightarrow>
               (Create log_name # evs @ (if st = Returned then [FClose] else []), st)))"

text \<open>The bytes a trace appended to the file, in order.\<close>

fun file_content :: "sink_event list \<Rightarrow> bytes" where
  "file_content [] = []"
| "file_content (FWrite b # evs) = b @ file_content evs"
| "file_content (_ # evs) = file_content evs"

subsection \<open>Go integers\<close>

text \<open>
  The counters of the program are Go \<^verbatim>\<open>int\<close>s, taken here at 64 bits in two's complement:
  \<open>int_add\<close> is \<^verbatim>\<open>+=\<close> with its wrap-around.
\<close>

definition int_wrap :: "int \<Rightarrow> int" where
  "int_wrap x = (x + 2 ^ 63) mod 2 ^ 64 - 2 ^ 63"

definition int_add :: "int \<Rightarrow> int \<Rightarrow> int" where
  "int_add a b = int_wrap (a + b)"

subsection \<open>Connections, channels and what travels on them\<close>

text \<open>
  A \<^verbatim>\<open>net.Conn\<close> is known by its two addresses (the strings of \<^verbatim>\<open>LocalAddr()\<close> and
  \<^verbatim>\<open>RemoteAddr()\<close>).
\<close>

record conn =
  local_addr :: string
  remote_addr :: string

text \<open>The four channels of one session (lines 131 to 134).\<close>

datatype chan = Logger | From_logger | To_logger | Ack

text \<open>\<^verbatim>\<open>type Channel struct\<close> (lines 78 to 82).\<close>

record Channel =
  c_from :: conn
  c_to :: conn
  c_logger :: chan
  c_binary_logger :: chan
  c_ack :: chan

text \<open>
  A broken-down local time, as \<^verbatim>\<open>time.Now()\<close> returns it and \<^verbatim>\<open>Format\<close> reads it.
\<close>

record time =
  year :: nat
  month :: nat
  day :: nat
  hour :: nat
  minute :: nat
  second :: nat

text \<open>
  The lines of the text log. Each constructor is one \<^verbatim>\<open>[]byte(fmt.Sprintf(...))\<close> (or
  \<^verbatim>\<open>[]byte(hex.Dump(...))\<close>) of the source and keeps the arguments of the call; the
  layout that \<^verbatim>\<open>fmt\<close> and \<^verbatim>\<open>hex\<close> give them is the library's and is not interpreted.
  \<open>Finished\<close> keeps the two operands of \<^verbatim>\<open>finished.Sub(started)\<close> for the duration.
\<close>

datatype log_line =
    Connected string string
  | Received int int int string
  | Hex_dump bytes
  | Sent int string
  | Disconnected string
  | Finished string time time

text \<open>
  A value sent on a \<^verbatim>\<open>chan []byte\<close>: a formatted line, or raw bytes (\<open>Raw []\<close> is
  \<^verbatim>\<open>[]byte{}\<close>, the stop sentinel).
\<close>

datatype chunk = Line log_line | Raw bytes

text \<open>The goroutines a \<^verbatim>\<open>go\<close> statement starts, with their arguments.\<close>

datatype goroutine =
    Connection_logger chan int string string
  | Binary_logger chan int string
  | Pass_through Channel
  | Process_connection conn int string

text \<open>How the \<^verbatim>\<open>flag\<close> package rejects a command line.\<close>

datatype flag_error = Bad_syntax string | Not_defined string | Needs_argument string | Help

text \<open>
  One event per statement of a goroutine that is visible outside it. \<open>Read c d err\<close> is a
  call \<^verbatim>\<open>c.Read(b)\<close> that stored the bytes \<open>d\<close> in \<^verbatim>\<open>b\<close> and returned
  \<^verbatim>\<open>(len d, err)\<close>; \<open>Write c d\<close> is the call \<^verbatim>\<open>c.Write(d)\<close>, whose result the
  source drops. \<open>Flag_failure\<close> is the report of the \<^verbatim>\<open>flag\<close> package (its message and
  the usage, on standard error) when it rejects the command line.
\<close>

datatype event =
    Printf string "string list"
  | Print_defaults
  | Flag_failure flag_error
  | Listen string
  | Accept "conn option"
  | Dial string
  | Panic string
  | Go goroutine
  | Send chan chunk
  | Send_bool chan bool
  | Recv_bool chan
  | Read conn bytes "string option"
  | Write conn bytes
  | Close conn

subsection \<open>Formatting\<close>

text \<open>Decimal digits of a natural number, and zero padding on the left to a width.\<close>

fun dec :: "nat \<Rightarrow> string" where
  "dec n = (if n < 10 then [''0123456789'' ! n] else dec (n div 10) @ [''0123456789'' ! (n mod 10)])"

definition pad0 :: "nat \<Rightarrow> string \<Rightarrow> string" where
  "pad0 w s = replicate (w - length s) (CHR ''0'') @ s"

text \<open>
  \<^verbatim>\<open>format_time\<close> (lines 70 to 72): the layout \<^verbatim>\<open>2006.01.02-15.04.05\<close> is a four-digit
  year and two-digit month, day, hour, minute and second, zero padded.
\<close>

definition format_time :: "time \<Rightarrow> string" where
  "format_time t =
     pad0 4 (dec (year t)) @ ''.'' @ pad0 2 (dec (month t)) @ ''.'' @ pad0 2 (dec (day t)) @ ''-'' @
     pad0 2 (dec (hour t)) @ ''.'' @ pad0 2 (dec (minute t)) @ ''.'' @ pad0 2 (dec (second t))"

text \<open>The verb \<^verbatim>\<open>%04d\<close> of \<^verbatim>\<open>fmt.Sprintf\<close>: the sign counts in the width.\<close>

definition fmt_04d :: "int \<Rightarrow> string" where
  "fmt_04d i = (if i < 0 then ''-'' @ pad0 3 (dec (nat (- i))) else pad0 4 (dec (nat i)))"

text \<open>\<^verbatim>\<open>printable_addr\<close> (lines 74 to 76), on the string of the address.\<close>

definition printable_addr :: "string \<Rightarrow> string" where
  "printable_addr a = map (\<lambda>ch. if ch = CHR '':'' then CHR ''-'' else ch) a"

subsection \<open>The two kinds of logger\<close>

text \<open>
  \<^verbatim>\<open>connection_logger\<close> (lines 40 to 44) and \<^verbatim>\<open>binary_logger\<close> (lines 47 to 51). \<open>now\<close> is
  what the logger's own call of \<^verbatim>\<open>time.Now()\<close> returns.
\<close>

definition connection_log_name :: "time \<Rightarrow> int \<Rightarrow> string \<Rightarrow> string \<Rightarrow> string" where
  "connection_log_name now conn_n local_info remote_info =
     ''log-'' @ format_time now @ ''-'' @ fmt_04d conn_n @ ''-'' @ local_info @ ''-'' @ remote_info @ ''.log''"

definition binary_log_name :: "time \<Rightarrow> int \<Rightarrow> string \<Rightarrow> string" where
  "binary_log_name now conn_n peer =
     ''log-binary-'' @ format_time now @ ''-'' @ fmt_04d conn_n @ ''-'' @ peer @ ''.log''"

definition connection_logger ::
  "time \<Rightarrow> string option \<Rightarrow> bytes list \<Rightarrow> int \<Rightarrow> string \<Rightarrow> string \<Rightarrow> sink_event list \<times> sink_status" where
  "connection_logger now create_err data conn_n local_info remote_info =
     logger_loop create_err data (connection_log_name now conn_n local_info remote_info)"

definition binary_logger ::
  "time \<Rightarrow> string option \<Rightarrow> bytes list \<Rightarrow> int \<Rightarrow> string \<Rightarrow> sink_event list \<times> sink_status" where
  "binary_logger now create_err data conn_n peer =
     logger_loop create_err data (binary_log_name now conn_n peer)"

subsection \<open>A relay direction\<close>

text \<open>
  \<^verbatim>\<open>b := make([]byte, 10240)\<close>, and what a \<^verbatim>\<open>Read(b)\<close> that returns the bytes \<open>d\<close> leaves in
  the array: \<open>d\<close> over its first cells, the rest as it was.
\<close>

definition make_b :: bytes where
  "make_b = replicate 10240 (CHR 0x00)"

definition read_into :: "bytes \<Rightarrow> bytes \<Rightarrow> bytes" where
  "read_into b d = d @ drop (length d) b"

text \<open>
  Lines 101 to 107: what the loop does with the \<open>n\<close> bytes at the front of \<open>b\<close>.
\<close>

definition relay :: "Channel \<Rightarrow> string \<Rightarrow> string \<Rightarrow> bytes \<Rightarrow> nat \<Rightarrow> int \<Rightarrow> int \<Rightarrow> event list" where
  "relay c from_peer to_peer b n offset packet_n =
     [Send (c_logger c) (Line (Received packet_n offset (int n) from_peer)),
      Send (c_logger c) (Line (Hex_dump (take n b))),
      Send (c_binary_logger c) (Raw (take n b)),
      Write (c_to c) (take n b),
      Send (c_logger c) (Line (Sent packet_n to_peer))]"

text \<open>
  The \<^verbatim>\<open>for\<close> loop of \<^verbatim>\<open>pass_through\<close> (lines 94 to 111), over the results of its calls of
  \<^verbatim>\<open>c.from.Read(b)\<close>: each is the bytes stored and the error. The second component says
  whether the loop was left (\<^verbatim>\<open>break\<close>); when the results are used up before that, the
  goroutine is blocked in \<^verbatim>\<open>Read\<close>.
\<close>

fun pass_through_for ::
  "Channel \<Rightarrow> string \<Rightarrow> string \<Rightarrow> (bytes \<times> string option) list \<Rightarrow> bytes \<Rightarrow> int \<Rightarrow> int \<Rightarrow> event list \<times> bool" where
  "pass_through_for c from_peer to_peer [] b offset packet_n = ([], False)"
| "pass_through_for c from_peer to_peer ((d, err) # rs) b offset packet_n =
     (if err \<noteq> None then
        ([Read (c_from c) d err, Send (c_logger c) (Line (Disconnected from_peer))], True)
      else if length d > 0 then
        (case pass_through_for c from_peer to_peer rs (read_into b d)
                (int_add offset (int (length d))) (int_add packet_n 1) of
           (evs, left) \<Rightarrow>
             (Read (c_from c) d err #
              relay c from_peer to_peer (read_into b d) (length d) offset packet_n @ evs, left))
      else
        (case pass_through_for c from_peer to_peer rs (read_into b d) offset packet_n of
           (evs, left) \<Rightarrow> (Read (c_from c) d err # evs, left)))"

text \<open>\<^verbatim>\<open>pass_through\<close> (lines 87 to 115).\<close>

definition pass_through :: "Channel \<Rightarrow> (bytes \<times> string option) list \<Rightarrow> event list \<times> bool" where
  "pass_through c rs =
     (case pass_through_for c (printable_addr (local_addr (c_from c)))
             (printable_addr (local_addr (c_to c))) rs make_b 0 0 of
        (evs, left) \<Rightarrow>
          (evs @ (if left then [Close (c_from c), Close (c_to c), Send_bool (c_ack c) True] else []),
           left))"

text \<open>Readers of a trace: the calls of \<^verbatim>\<open>Write\<close>, and the lines with a packet number.\<close>

fun written :: "event list \<Rightarrow> (conn \<times> bytes) list" where
  "written [] = []"
| "written (Write k d # evs) = (k, d) # written evs"
| "written (_ # evs) = written evs"

fun received :: "event list \<Rightarrow> (int \<times> int \<times> int) list" where
  "received [] = []"
| "received (Send _ (Line (Received p off n _)) # evs) = (p, off, n) # received evs"
| "received (_ # evs) = received evs"

fun numbered :: "event list \<Rightarrow> (bool \<times> int) list" where
  "numbered [] = []"
| "numbered (Send _ (Line (Received p _ _ _)) # evs) = (True, p) # numbered evs"
| "numbered (Send _ (Line (Sent p _)) # evs) = (False, p) # numbered evs"
| "numbered (_ # evs) = numbered evs"

text \<open>
  Readers of the results of \<^verbatim>\<open>Read\<close>: the reads before the first error, and among them
  the chunks, that is the reads of \<open>n > 0\<close> bytes.
\<close>

definition successful :: "(bytes \<times> string option) list \<Rightarrow> (bytes \<times> string option) list" where
  "successful rs = takeWhile (\<lambda>r. snd r = None) rs"

definition chunks :: "(bytes \<times> string option) list \<Rightarrow> bytes list" where
  "chunks rs = filter (\<lambda>d. d \<noteq> []) (map fst (successful rs))"

subsection \<open>A session\<close>

text \<open>
  How a goroutine of the program stands when what its blocking calls return is used up.
\<close>

datatype goroutine_status = Ended | Waiting | Panicking

text \<open>
  Lines 126 to 156 of \<^verbatim>\<open>process_connection\<close>, for a connection \<open>remote\<close> that is not nil.
  \<open>started\<close> and \<open>finished\<close> are the two readings of the clock (lines 129 and 148) and
  \<open>acks\<close> the values that the channel \<^verbatim>\<open>ack\<close> delivers to this goroutine; each
  \<^verbatim>\<open><-ack\<close> takes one and blocks when there is none. The sends of the session are taken
  by the sinks, which are receiving until they get the sentinel.
\<close>

definition launch :: "conn \<Rightarrow> conn \<Rightarrow> int \<Rightarrow> string \<Rightarrow> time \<Rightarrow> event list" where
  "launch local remote conn_n target started =
     [Go (Connection_logger Logger conn_n
            (printable_addr (local_addr remote)) (printable_addr (remote_addr remote))),
      Go (Binary_logger From_logger conn_n (printable_addr (local_addr remote))),
      Go (Binary_logger To_logger conn_n (printable_addr (remote_addr remote))),
      Send Logger (Line (Connected target (format_time started))),
      Go (Pass_through \<lparr>c_from = remote, c_to = local, c_logger = Logger,
                        c_binary_logger = To_logger, c_ack = Ack\<rparr>),
      Go (Pass_through \<lparr>c_from = local, c_to = remote, c_logger = Logger,
                        c_binary_logger = From_logger, c_ack = Ack\<rparr>)]"

definition finish :: "time \<Rightarrow> time \<Rightarrow> event list" where
  "finish started finished =
     [Send Logger (Line (Finished (format_time started) finished started)),
      Send Logger (Raw []),
      Send From_logger (Raw []),
      Send To_logger (Raw [])]"

fun relay_session ::
  "conn \<Rightarrow> conn \<Rightarrow> int \<Rightarrow> string \<Rightarrow> time \<Rightarrow> time \<Rightarrow> bool list \<Rightarrow> event list \<times> goroutine_status" where
  "relay_session local remote conn_n target started finished [] =
     (launch local remote conn_n target started, Waiting)"
| "relay_session local remote conn_n target started finished [a] =
     (launch local remote conn_n target started @ [Recv_bool Ack], Waiting)"
| "relay_session local remote conn_n target started finished (a # a' # acks) =
     (launch local remote conn_n target started @ [Recv_bool Ack, Recv_bool Ack] @
      finish started finished, Ended)"

text \<open>
  \<^verbatim>\<open>process_connection\<close> (lines 120 to 156). \<open>dialed\<close> is what \<^verbatim>\<open>net.Dial\<close> returns: an
  error, with a nil connection, or a connection. The \<^verbatim>\<open>if err != nil\<close> of line 122 prints
  and falls through to line 126, where \<^verbatim>\<open>remote.LocalAddr()\<close> on the nil connection
  panics.
\<close>

definition process_connection ::
  "conn \<Rightarrow> int \<Rightarrow> string \<Rightarrow> string + conn \<Rightarrow> time \<Rightarrow> time \<Rightarrow> bool list \<Rightarrow> event list \<times> goroutine_status" where
  "process_connection local conn_n target dialed started finished acks =
     (case dialed of
        Inl err \<Rightarrow>
          ([Dial target, Printf ''Unable to connect to %s, %v\<newline>'' [target, err],
            Panic ''invalid memory address or nil pointer dereference''], Panicking)
      | Inr remote \<Rightarrow>
          (case relay_session local remote conn_n target started finished acks of
             (evs, st) \<Rightarrow> (Dial target # evs, st)))"

text \<open>Readers of a session's trace.\<close>

fun launched :: "event list \<Rightarrow> Channel list" where
  "launched [] = []"
| "launched (Go (Pass_through c) # evs) = c # launched evs"
| "launched (_ # evs) = launched evs"

fun sends :: "event list \<Rightarrow> (chan \<times> chunk) list" where
  "sends [] = []"
| "sends (Send ch x # evs) = (ch, x) # sends evs"
| "sends (_ # evs) = sends evs"

fun ack_values :: "event list \<Rightarrow> bool list" where
  "ack_values [] = []"
| "ack_values (Send_bool Ack v # evs) = v # ack_values evs"
| "ack_values (_ # evs) = ack_values evs"

text \<open>
  The names of the files that the loggers started in a trace create, when their calls of
  \<^verbatim>\<open>time.Now()\<close> return \<open>ts\<close>, one reading per logger in the order of the \<^verbatim>\<open>go\<close>
  statements.
\<close>

fun log_names :: "event list \<Rightarrow> time list \<Rightarrow> string list" where
  "log_names [] ts = []"
| "log_names (Go (Connection_logger ch conn_n local_info remote_info) # evs) (t # ts) =
     connection_log_name t conn_n local_info remote_info # log_names evs ts"
| "log_names (Go (Binary_logger ch conn_n peer) # evs) (t # ts) =
     binary_log_name t conn_n peer # log_names evs ts"
| "log_names (_ # evs) ts = log_names evs ts"

text \<open>The readings of a clock that \<^verbatim>\<open>Format\<close> prints in 19 characters.\<close>

definition valid_time :: "time \<Rightarrow> bool" where
  "valid_time t =
     (year t < 10000 \<and> 1 \<le> month t \<and> month t \<le> 12 \<and> 1 \<le> day t \<and> day t \<le> 31 \<and>
      hour t < 24 \<and> minute t < 60 \<and> second t < 60)"

subsection \<open>The command line and the listener\<close>

text \<open>
  The three flags of lines 27 to 31 as the \<^verbatim>\<open>flag\<close> package keeps them: their values,
  which start at the defaults, and the names of the flags that were set, which
  \<^verbatim>\<open>flag.NFlag()\<close> counts.
\<close>

record flags =
  host :: string
  port :: string
  listen_port :: string
  actual :: "string list"

definition default_flags :: flags where
  "default_flags = \<lparr>host = [], port = ''0'', listen_port = ''0'', actual = []\<rparr>"

definition formal :: "string list" where
  "formal = [''host'', ''port'', ''listen_port'']"

definition set_flag :: "flags \<Rightarrow> string \<Rightarrow> string \<Rightarrow> flags" where
  "set_flag f name v =
     (if name = ''host'' then f\<lparr>host := v, actual := List.insert name (actual f)\<rparr>
      else if name = ''port'' then f\<lparr>port := v, actual := List.insert name (actual f)\<rparr>
      else f\<lparr>listen_port := v, actual := List.insert name (actual f)\<rparr>)"

definition NFlag :: "flags \<Rightarrow> nat" where
  "NFlag f = length (actual f)"

text \<open>
  \<^verbatim>\<open>flag.Parse()\<close> of the standard library, for these string flags. An argument of the
  form \<^verbatim>\<open>-name\<close>, \<^verbatim>\<open>--name\<close>, \<^verbatim>\<open>-name=value\<close> or \<^verbatim>\<open>--name=value\<close> is a flag; without
  \<^verbatim>\<open>=\<close> its value is the next argument. Parsing stops before the first argument that is
  not a flag and after \<^verbatim>\<open>--\<close>. The text of a flag is \<open>flag_text\<close>, cut at the first
  \<^verbatim>\<open>=\<close> after its first character.
\<close>

definition flag_text :: "string \<Rightarrow> string" where
  "flag_text s = drop (if s ! 1 = CHR ''-'' then 2 else 1) s"

definition has_value :: "string \<Rightarrow> bool" where
  "has_value s = (CHR ''='' \<in> set (tl (flag_text s)))"

definition flag_name :: "string \<Rightarrow> string" where
  "flag_name s = hd (flag_text s) # takeWhile (\<lambda>ch. ch \<noteq> CHR ''='') (tl (flag_text s))"

definition flag_value :: "string \<Rightarrow> string" where
  "flag_value s = tl (dropWhile (\<lambda>ch. ch \<noteq> CHR ''='') (tl (flag_text s)))"

fun flag_parse :: "flags \<Rightarrow> string list \<Rightarrow> flag_error + flags \<times> string list" where
  "flag_parse f [] = Inr (f, [])"
| "flag_parse f (s # args) =
     (if length s < 2 \<or> s ! 0 \<noteq> CHR ''-'' then Inr (f, s # args)
      else if s ! 1 = CHR ''-'' \<and> length s = 2 then Inr (f, args)
      else if length (flag_text s) = 0 \<or> flag_text s ! 0 = CHR ''-'' \<or> flag_text s ! 0 = CHR ''=''
        then Inl (Bad_syntax s)
      else if flag_name s \<notin> set formal
        then (if flag_name s = ''help'' \<or> flag_name s = ''h'' then Inl Help
              else Inl (Not_defined (flag_name s)))
      else if has_value s then flag_parse (set_flag f (flag_name s) (flag_value s)) args
      else (case args of
              [] \<Rightarrow> Inl (Needs_argument (flag_name s))
            | v # args' \<Rightarrow> flag_parse (set_flag f (flag_name s) v) args'))"

text \<open>
  On an error the package, in its \<^verbatim>\<open>ExitOnError\<close> mode, reports and exits by itself: with
  status 0 after \<^verbatim>\<open>-h\<close> or \<^verbatim>\<open>-help\<close>, with status 2 otherwise.
\<close>

definition flag_exit :: "flag_error \<Rightarrow> int" where
  "flag_exit e = (if e = Help then 0 else 2)"

text \<open>\<^verbatim>\<open>net.JoinHostPort\<close>: a host with a colon is put in brackets.\<close>

definition JoinHostPort :: "string \<Rightarrow> string \<Rightarrow> string" where
  "JoinHostPort h p = (if CHR '':'' \<in> set h then ''['' @ h @ '']:'' @ p else h @ '':'' @ p)"

text \<open>How the process stands: exited with a status, blocked in \<^verbatim>\<open>Accept\<close>, or ended by a panic.\<close>

datatype proc_status = Exited int | Accepting | Crashed

text \<open>
  What belongs to one accepted connection besides the connection: the arguments that
  \<^verbatim>\<open>process_connection\<close> takes from its surroundings.
\<close>

record session_env =
  env_dialed :: "string + conn"
  env_started :: time
  env_finished :: time
  env_acks :: "bool list"

text \<open>
  The \<^verbatim>\<open>for\<close> loop of \<^verbatim>\<open>main\<close> (lines 177 to 184), over what the calls of \<^verbatim>\<open>ln.Accept()\<close>
  return: an error, or a connection. The trace is that of the main goroutine. A panic
  in any goroutine ends the whole program; the loop is cut where the session it started
  panics, the dial of a session being over before the next \<^verbatim>\<open>Accept\<close> returns.
\<close>

fun accept_loop :: "string \<Rightarrow> int \<Rightarrow> (string + conn \<times> session_env) list \<Rightarrow> event list \<times> proc_status" where
  "accept_loop target conn_n [] = ([], Accepting)"
| "accept_loop target conn_n (Inl err # accepts) =
     (case accept_loop target conn_n accepts of
        (evs, st) \<Rightarrow> (Accept None # Printf ''Accept failed, %v\<newline>'' [err] # evs, st))"
| "accept_loop target conn_n (Inr (conn, env) # accepts) =
     (if snd (process_connection conn conn_n target
                (env_dialed env) (env_started env) (env_finished env) (env_acks env)) = Panicking
      then ([Accept (Some conn), Go (Process_connection conn conn_n target)], Crashed)
      else (case accept_loop target (int_add conn_n 1) accepts of
              (evs, st) \<Rightarrow>
                (Accept (Some conn) # Go (Process_connection conn conn_n target) # evs, st)))"

text \<open>
  \<^verbatim>\<open>main\<close> (lines 160 to 185), from the command line \<open>args\<close>, the error of \<^verbatim>\<open>net.Listen\<close>
  if any, and what \<^verbatim>\<open>Accept\<close> returns. (\<^verbatim>\<open>runtime.GOMAXPROCS\<close> leaves no trace.)
\<close>

definition main :: "string list \<Rightarrow> string option \<Rightarrow> (string + conn \<times> session_env) list \<Rightarrow> event list \<times> proc_status" where
  "main args listen_err accepts =
     (case flag_parse default_flags args of
        Inl e \<Rightarrow> ([Flag_failure e], Exited (flag_exit e))
      | Inr (f, rest) \<Rightarrow>
          if NFlag f \<noteq> 3 then
            ([Printf ''usage: gotcpspy -host target_host -port target_port -listen_port local_port\<newline>'' [],
              Print_defaults], Exited 1)
          else
            (case listen_err of
               Some err \<Rightarrow>
                 ([Printf ''Start listening on port %s and forwarding data to %s\<newline>''
                     [listen_port f, JoinHostPort (host f) (port f)],
                   Listen ('':'' @ listen_port f),
                   Printf ''Unable to start listener, %v\<newline>'' [err]], Exited 1)
             | None \<Rightarrow>
                 (case accept_loop (JoinHostPort (host f) (port f)) 1 accepts of
                    (evs, st) \<Rightarrow>
                      (Printf ''Start listening on port %s and forwarding data to %s\<newline>''
                         [listen_port f, JoinHostPort (host f) (port f)] #
                       Listen ('':'' @ listen_port f) # evs, st))))"

subsection \<open>A direction and its binary sink, step by step\<close>

text \<open>
  \<^verbatim>\<open>pass_through\<close> and the \<^verbatim>\<open>logger_loop\<close> of its binary sink are two goroutines. What the
  direction sends on \<^verbatim>\<open>c.binary_logger\<close> is the slice \<^verbatim>\<open>b[:n]\<close>: a length and a reference to
  the array behind \<^verbatim>\<open>b\<close>, which the next \<^verbatim>\<open>Read(b)\<close> overwrites. (The lines sent on
  \<^verbatim>\<open>c.logger\<close> are converted from strings and have arrays of their own.) So the array is
  kept in a state that both goroutines step on, one statement at a time; the program
  counters are named after the statement that comes next. The text sink and the session
  are taken to be receiving whenever the direction sends to them.
\<close>

datatype pc =
    At_read | At_disconnected | At_received | At_dump | At_binary | At_write | At_sent
  | At_offset | At_packet | At_close_from | At_close_to | At_ack | At_end

text \<open>
  The sink: in the receive of line 61, at the test of line 62, at \<^verbatim>\<open>f.Write\<close> or \<^verbatim>\<open>f.Sync\<close>,
  or returned. After the receive it holds a slice of some length into the shared array.
\<close>

datatype sink_pc = At_recv | At_len nat | At_fwrite nat | At_fsync | At_return

record machine =
  m_b :: bytes
  m_n :: nat
  m_err :: "string option"
  m_offset :: int
  m_packet_n :: int
  m_pc :: pc
  m_reads :: "(bytes \<times> string option) list"
  m_trace :: "event list"
  m_sink :: sink_pc
  m_file :: bytes

definition init :: "(bytes \<times> string option) list \<Rightarrow> machine" where
  "init rs =
     \<lparr>m_b = make_b, m_n = 0, m_err = None, m_offset = 0, m_packet_n = 0, m_pc = At_read,
      m_reads = rs, m_trace = [], m_sink = At_recv, m_file = []\<rparr>"

text \<open>
  One statement of \<^verbatim>\<open>pass_through\<close> (lines 95 to 114). \<open>None\<close> means that the goroutine
  cannot move: it is blocked in \<^verbatim>\<open>Read\<close>, or in the send of line 104 while the sink is
  not in its receive (the channel has no buffer), or it has ended.
\<close>

fun direction_step :: "Channel \<Rightarrow> machine \<Rightarrow> machine option" where
  "direction_step c m =
     (case m_pc m of
        At_read \<Rightarrow>
          (case m_reads m of
             [] \<Rightarrow> None
           | (d, err) # rs \<Rightarrow>
               Some (m\<lparr>m_b := read_into (m_b m) d, m_n := length d, m_err := err, m_reads := rs,
                       m_trace := m_trace m @ [Read (c_from c) d err],
                       m_pc := (if err \<noteq> None then At_disconnected
                                else if length d > 0 then At_received else At_read)\<rparr>))
      | At_disconnected \<Rightarrow>
          Some (m\<lparr>m_trace := m_trace m @
                    [Send (c_logger c) (Line (Disconnected (printable_addr (local_addr (c_from c)))))],
                  m_pc := At_close_from\<rparr>)
      | At_received \<Rightarrow>
          Some (m\<lparr>m_trace := m_trace m @
                    [Send (c_logger c) (Line (Received (m_packet_n m) (m_offset m) (int (m_n m))
                       (printable_addr (local_addr (c_from c)))))],
                  m_pc := At_dump\<rparr>)
      | At_dump \<Rightarrow>
          Some (m\<lparr>m_trace := m_trace m @ [Send (c_logger c) (Line (Hex_dump (take (m_n m) (m_b m))))],
                  m_pc := At_binary\<rparr>)
      | At_binary \<Rightarrow>
          (if m_sink m = At_recv then
             Some (m\<lparr>m_trace := m_trace m @ [Send (c_binary_logger c) (Raw (take (m_n m) (m_b m)))],
                     m_sink := At_len (m_n m), m_pc := At_write\<rparr>)
           else None)
      | At_write \<Rightarrow>
          Some (m\<lparr>m_trace := m_trace m @ [Write (c_to c) (take (m_n m) (m_b m))], m_pc := At_sent\<rparr>)
      | At_sent \<Rightarrow>
          Some (m\<lparr>m_trace := m_trace m @
                    [Send (c_logger c) (Line (Sent (m_packet_n m) (printable_addr (local_addr (c_to c)))))],
                  m_pc := At_offset\<rparr>)
      | At_offset \<Rightarrow> Some (m\<lparr>m_offset := int_add (m_offset m) (int (m_n m)), m_pc := At_packet\<rparr>)
      | At_packet \<Rightarrow> Some (m\<lparr>m_packet_n := int_add (m_packet_n m) 1, m_pc := At_read\<rparr>)
      | At_close_from \<Rightarrow> Some (m\<lparr>m_trace := m_trace m @ [Close (c_from c)], m_pc := At_close_to\<rparr>)
      | At_close_to \<Rightarrow> Some (m\<lparr>m_trace := m_trace m @ [Close (c_to c)], m_pc := At_ack\<rparr>)
      | At_ack \<Rightarrow> Some (m\<lparr>m_trace := m_trace m @ [Send_bool (c_ack c) True], m_pc := At_end\<rparr>)
      | At_end \<Rightarrow> None)"

text \<open>
  One statement of the loop of \<^verbatim>\<open>logger_loop\<close> (lines 61 to 66). \<^verbatim>\<open>f.Write(b)\<close> appends what
  the array holds when it runs.
\<close>

fun sink_step :: "machine \<Rightarrow> machine option" where
  "sink_step m =
     (case m_sink m of
        At_recv \<Rightarrow> None
      | At_len n \<Rightarrow> Some (m\<lparr>m_sink := (if n = 0 then At_return else At_fwrite n)\<rparr>)
      | At_fwrite n \<Rightarrow> Some (m\<lparr>m_file := m_file m @ take n (m_b m), m_sink := At_fsync\<rparr>)
      | At_fsync \<Rightarrow> Some (m\<lparr>m_sink := At_recv\<rparr>)
      | At_return \<Rightarrow> None)"

text \<open>
  A schedule says which goroutine moves next; running it fails (\<open>None\<close>) when it picks a
  goroutine that cannot move.
\<close>

datatype thread = Direction | Sink

fun run :: "Channel \<Rightarrow> thread list \<Rightarrow> machine \<Rightarrow> machine option" where
  "run c [] m = Some m"
| "run c (Direction # ts) m = (case direction_step c m of None \<Rightarrow> None | Some m' \<Rightarrow> run c ts m')"
| "run c (Sink # ts) m = (case sink_step m of None \<Rightarrow> None | Some m' \<Rightarrow> run c ts m')"

section \<open>Properties\<close>

subsection \<open>Log sinks\<close>

lemma logger_for_trace:
  "logger_for data =
     (concat (map (\<lambda>b. [Recv b, FWrite b, FSync]) (takeWhile (\<lambda>b. length b \<noteq> 0) data))
        @ (if [] \<in> set data then [Recv []] else []),
      if [] \<in> set data then Returned else Receiving)"
  by (induction data) (auto split: prod.splits)

text \<open>
  Claim C6. Whatever chunks are enqueued to a sink whose file was created: every chunk
  before the first empty one is received, appended and flushed, in the order received
  and each flush before the next receive; the first empty chunk is received, not
  written, and ends the loop, after which the file is closed; without an empty chunk the
  sink stays in its receive and the file stays open. No empty chunk is ever written.
\<close>

theorem logger_loop_sentinel:
  "logger_loop None data log_name =
     (Create log_name #
        concat (map (\<lambda>b. [Recv b, FWrite b, FSync]) (takeWhile (\<lambda>b. length b \<noteq> 0) data))
        @ (if [] \<in> set data then [Recv [], FClose] else []),
      if [] \<in> set data then Returned else Receiving)
   \<and> FWrite [] \<notin> set (fst (logger_loop None data log_name))"
  by (auto simp: logger_loop_def logger_for_trace dest: set_takeWhileD)

subsection \<open>The loop of a relay direction, case by case\<close>

lemma take_read_into: "take (length d) (read_into b d) = d"
  by (simp add: read_into_def)

lemma read_into_Nil: "read_into b [] = b"
  by (simp add: read_into_def)

lemma for_Nil: "pass_through_for c fp tp [] b off pn = ([], False)"
  by simp

lemma for_err: "pass_through_for c fp tp ((d, Some e) # rs) b off pn =
   ([Read (c_from c) d (Some e), Send (c_logger c) (Line (Disconnected fp))], True)"
  by simp

lemma for_data: "d \<noteq> [] \<Longrightarrow> pass_through_for c fp tp ((d, None) # rs) b off pn =
   (Read (c_from c) d None # relay c fp tp (read_into b d) (length d) off pn @
    fst (pass_through_for c fp tp rs (read_into b d) (int_add off (int (length d))) (int_add pn 1)),
    snd (pass_through_for c fp tp rs (read_into b d) (int_add off (int (length d))) (int_add pn 1)))"
  by (simp split: prod.splits)

lemma for_zero: "pass_through_for c fp tp (([], None) # rs) b off pn =
   (Read (c_from c) [] None # fst (pass_through_for c fp tp rs b off pn),
    snd (pass_through_for c fp tp rs b off pn))"
  by (simp add: read_into_Nil split: prod.splits)

declare pass_through_for.simps [simp del]

lemma chunks_Nil: "chunks [] = []"
  by (simp add: chunks_def successful_def)

lemma chunks_err: "chunks ((d, Some e) # rs) = []"
  by (simp add: chunks_def successful_def)

lemma chunks_zero: "chunks (([], None) # rs) = chunks rs"
  by (simp add: chunks_def successful_def)

lemma chunks_data: "d \<noteq> [] \<Longrightarrow> chunks ((d, None) # rs) = d # chunks rs"
  by (simp add: chunks_def successful_def)

lemma chunks_nonempty: "\<forall>d \<in> set (chunks rs). d \<noteq> []"
  by (simp add: chunks_def)

lemma reads_cases:
  obtains (Nil) "rs = []"
  | (Err) d e rs' where "rs = (d, Some e) # rs'"
  | (Zero) rs' where "rs = ([], None) # rs'"
  | (Data) d rs' where "rs = (d, None) # rs'" "d \<noteq> []"
proof (cases rs)
  case Nil
  then show ?thesis using that(1) by simp
next
  case (Cons r rs')
  obtain d err where r: "r = (d, err)" by (cases r)
  show ?thesis
  proof (cases err)
    case None
    then show ?thesis using that(3,4) Cons r by (cases "d = []") auto
  next
    case (Some e)
    then show ?thesis using that(2) Cons r by auto
  qed
qed

lemma for_left: "snd (pass_through_for c fp tp rs b off pn) = (\<exists>r \<in> set rs. snd r \<noteq> None)"
proof (induction rs arbitrary: b off pn)
  case Nil
  show ?case by (simp add: for_Nil)
next
  case (Cons r rs)
  show ?case
  proof (cases "r # rs" rule: reads_cases)
    case Nil then show ?thesis by simp
  next
    case (Err d e rs') then show ?thesis by (simp add: for_err)
  next
    case (Zero rs') then show ?thesis using Cons by (simp add: for_zero)
  next
    case (Data d rs') then show ?thesis using Cons by (simp add: for_data)
  qed
qed

lemma pass_through_fst: "fst (pass_through c rs) =
   fst (pass_through_for c (printable_addr (local_addr (c_from c)))
             (printable_addr (local_addr (c_to c))) rs make_b 0 0) @
   (if \<exists>r \<in> set rs. snd r \<noteq> None
    then [Close (c_from c), Close (c_to c), Send_bool (c_ack c) True] else [])"
proof (cases "pass_through_for c (printable_addr (local_addr (c_from c)))
             (printable_addr (local_addr (c_to c))) rs make_b 0 0")
  case (Pair evs left)
  with for_left[of c "printable_addr (local_addr (c_from c))"
      "printable_addr (local_addr (c_to c))" rs make_b 0 0]
  show ?thesis by (simp add: pass_through_def)
qed

lemma pass_through_snd: "snd (pass_through c rs) = (\<exists>r \<in> set rs. snd r \<noteq> None)"
proof (cases "pass_through_for c (printable_addr (local_addr (c_from c)))
             (printable_addr (local_addr (c_to c))) rs make_b 0 0")
  case (Pair evs left)
  with for_left[of c "printable_addr (local_addr (c_from c))"
      "printable_addr (local_addr (c_to c))" rs make_b 0 0]
  show ?thesis by (simp add: pass_through_def)
qed

subsection \<open>Byte transparency\<close>

lemma written_app: "written (xs @ ys) = written xs @ written ys"
  by (induction xs rule: written.induct) auto

lemma written_relay: "written (relay c fp tp b n off pn) = [(c_to c, take n b)]"
  by (simp add: relay_def)

lemma written_for:
  "written (fst (pass_through_for c fp tp rs b off pn)) = map (Pair (c_to c)) (chunks rs)"
proof (induction rs arbitrary: b off pn)
  case Nil
  then show ?case by (simp add: chunks_Nil for_Nil)
next
  case (Cons r rs)
  show ?case
  proof (cases "r # rs" rule: reads_cases)
    case Nil then show ?thesis by simp
  next
    case (Err d e rs') then show ?thesis by (simp add: for_err chunks_err)
  next
    case (Zero rs') then show ?thesis using Cons by (simp add: for_zero chunks_zero)
  next
    case (Data d rs') then show ?thesis using Cons
      by (simp add: for_data chunks_data written_app written_relay take_read_into)
  qed
qed

text \<open>
  Claim C2. The calls of \<^verbatim>\<open>Write\<close> a direction makes are, in order, one per chunk of
  \<open>n > 0\<close> bytes it read, each on its write-side connection \<^verbatim>\<open>c.to\<close> and with exactly
  the bytes read; so the bytes handed to the write side, concatenated, are the bytes of
  all the successful reads, concatenated. (What \<^verbatim>\<open>Write\<close> returns is dropped by the
  source, and is no part of the trace.)
\<close>

theorem pass_through_verbatim:
  "written (fst (pass_through c rs)) = map (Pair (c_to c)) (chunks rs)
   \<and> concat (map snd (written (fst (pass_through c rs)))) = concat (map fst (successful rs))"
proof -
  have w: "written (fst (pass_through c rs)) = map (Pair (c_to c)) (chunks rs)"
    by (simp add: pass_through_fst written_app written_for)
  have "concat (filter (\<lambda>d. d \<noteq> []) ds) = concat ds" for ds :: "bytes list"
    by (induction ds) auto
  then show ?thesis using w by (simp add: chunks_def comp_def)
qed

subsection \<open>Packet numbers and offsets\<close>

lemma int_wrap_id: "- (2 ^ 63) \<le> x \<Longrightarrow> x < 2 ^ 63 \<Longrightarrow> int_wrap x = x"
  by (simp add: int_wrap_def)

lemma received_app: "received (xs @ ys) = received xs @ received ys"
  by (induction xs rule: received.induct) auto

lemma received_relay: "received (relay c fp tp b n off pn) = [(pn, off, int n)]"
  by (simp add: relay_def)

lemma numbered_app: "numbered (xs @ ys) = numbered xs @ numbered ys"
  by (induction xs rule: numbered.induct) auto

lemma numbered_relay: "numbered (relay c fp tp b n off pn) = [(True, pn), (False, pn)]"
  by (simp add: relay_def)

lemma length_le_concat: "\<forall>d \<in> set ds. d \<noteq> [] \<Longrightarrow> length ds \<le> length (concat ds)"
proof (induction ds)
  case Nil
  show ?case by simp
next
  case (Cons d ds)
  then have "1 \<le> length d" by (cases d) auto
  with Cons show ?case by simp
qed

lemma concat_take_Suc:
  "k < length cs \<Longrightarrow> length (concat (take (Suc k) cs)) = length (concat (take k cs)) + length (cs ! k)"
  by (simp add: take_Suc_conv_app_nth)

lemma concat_take_mono: "i \<le> j \<Longrightarrow> length (concat (take i cs)) \<le> length (concat (take j cs))"
proof -
  assume "i \<le> j"
  then have "take j cs = take i cs @ take (j - i) (drop i cs)"
    using take_add[of i "j - i" cs] by simp
  then show ?thesis by simp
qed

lemma concat_take_less:
  assumes "i < j" "j \<le> length cs" "\<forall>d \<in> set cs. d \<noteq> []"
  shows "length (concat (take i cs)) < length (concat (take j cs))"
proof -
  have "cs ! i \<in> set cs" using assms by simp
  then have "0 < length (cs ! i)" using assms(3) by blast
  then have "length (concat (take i cs)) < length (concat (take (Suc i) cs))"
    using assms concat_take_Suc[of i cs] by simp
  also have "\<dots> \<le> length (concat (take j cs))"
    using assms by (intro concat_take_mono) simp
  finally show ?thesis .
qed

text \<open>
  The \<^verbatim>\<open>Received\<close> lines of the loop started at any counters, as long as neither counter
  leaves the range of \<^verbatim>\<open>int\<close>.
\<close>

lemma received_for:
  "0 \<le> off \<Longrightarrow> 0 \<le> pn \<Longrightarrow> off + int (length (concat (chunks rs))) < 2 ^ 63 \<Longrightarrow>
   pn + int (length (chunks rs)) < 2 ^ 63 \<Longrightarrow>
   received (fst (pass_through_for c fp tp rs b off pn)) =
     map (\<lambda>k. (pn + int k, off + int (length (concat (take k (chunks rs)))), int (length (chunks rs ! k))))
       [0..<length (chunks rs)]"
proof (induction rs arbitrary: b off pn)
  case Nil
  then show ?case by (simp add: chunks_Nil for_Nil)
next
  case (Cons r rs)
  show ?case
  proof (cases "r # rs" rule: reads_cases)
    case Nil then show ?thesis by simp
  next
    case (Err d e rs') then show ?thesis by (simp add: for_err chunks_err)
  next
    case (Zero rs') then show ?thesis using Cons by (simp add: for_zero chunks_zero)
  next
    case (Data d rs')
    then have rs': "rs' = rs" and r: "r = (d, None)" by simp_all
    have ch: "chunks (r # rs) = d # chunks rs" using Data by (simp add: chunks_data)
    have bnd: "off + int (length d) + int (length (concat (chunks rs))) < 2 ^ 63"
      "pn + 1 + int (length (chunks rs)) < 2 ^ 63"
      using Cons.prems by (simp_all add: ch)
    have o: "int_add off (int (length d)) = off + int (length d)"
      unfolding int_add_def using bnd Cons.prems by (intro int_wrap_id) linarith+
    have p: "int_add pn 1 = pn + 1"
      unfolding int_add_def using bnd Cons.prems by (intro int_wrap_id) linarith+
    have IH: "received (fst (pass_through_for c fp tp rs (read_into b d) (off + int (length d)) (pn + 1))) =
      map (\<lambda>k. (pn + 1 + int k, off + int (length d) + int (length (concat (take k (chunks rs)))),
                 int (length (chunks rs ! k)))) [0..<length (chunks rs)]"
      using bnd Cons.prems by (intro Cons.IH) linarith+
    have up: "[0..<Suc m] = 0 # map Suc [0..<m]" for m
      by (simp add: upt_conv_Cons map_Suc_upt del: upt_Suc)
    show ?thesis
      unfolding r
      by (simp add: for_data Data(2) chunks_data received_app received_relay o p IH up comp_def
          del: upt_Suc)
  qed
qed

lemma received_pass_through:
  "received (fst (pass_through c rs)) =
   received (fst (pass_through_for c (printable_addr (local_addr (c_from c)))
             (printable_addr (local_addr (c_to c))) rs make_b 0 0))"
  by (simp add: pass_through_fst received_app)

text \<open>
  The same lines when the counters may leave the range: the \<^verbatim>\<open>+=\<close> of lines 108 and 109
  wraps around, and so do the numbers logged.
\<close>

lemma int_wrap_add_left: "int_wrap (int_wrap x + y) = int_wrap (x + y)"
proof -
  have a: "int_wrap x + y + 2 ^ 63 = (x + 2 ^ 63) mod 2 ^ 64 + y"
    unfolding int_wrap_def by linarith
  have b: "x + 2 ^ 63 + y = x + y + 2 ^ 63" by linarith
  have "(int_wrap x + y + 2 ^ 63) mod 2 ^ 64 = ((x + 2 ^ 63) mod 2 ^ 64 + y) mod 2 ^ 64"
    by (simp only: a)
  also have "\<dots> = (x + 2 ^ 63 + y) mod 2 ^ 64" by (rule mod_add_left_eq)
  finally have "(int_wrap x + y + 2 ^ 63) mod 2 ^ 64 = (x + y + 2 ^ 63) mod 2 ^ 64"
    by (simp only: b)
  then show ?thesis unfolding int_wrap_def[of "int_wrap x + y"] int_wrap_def[of "x + y"]
    by (simp only:)
qed

lemma int_wrap_wrap: "int_wrap (int_wrap x) = int_wrap x"
  using int_wrap_add_left[of x 0] by simp

lemma received_for_wrap:
  "int_wrap off = off \<Longrightarrow> int_wrap pn = pn \<Longrightarrow>
   received (fst (pass_through_for c fp tp rs b off pn)) =
     map (\<lambda>k. (int_wrap (pn + int k), int_wrap (off + int (length (concat (take k (chunks rs))))),
                int (length (chunks rs ! k))))
       [0..<length (chunks rs)]"
proof (induction rs arbitrary: b off pn)
  case Nil
  then show ?case by (simp add: chunks_Nil for_Nil)
next
  case (Cons r rs)
  show ?case
  proof (cases "r # rs" rule: reads_cases)
    case Nil then show ?thesis by simp
  next
    case (Err d e rs') then show ?thesis by (simp add: for_err chunks_err)
  next
    case (Zero rs') then show ?thesis using Cons by (simp add: for_zero chunks_zero)
  next
    case (Data d rs')
    then have rs': "rs' = rs" and r: "r = (d, None)" by simp_all
    have IH: "received (fst (pass_through_for c fp tp rs (read_into b d)
                 (int_add off (int (length d))) (int_add pn 1))) =
      map (\<lambda>k. (int_wrap (int_add pn 1 + int k),
                 int_wrap (int_add off (int (length d)) + int (length (concat (take k (chunks rs))))),
                 int (length (chunks rs ! k)))) [0..<length (chunks rs)]"
      by (intro Cons.IH) (simp_all add: int_add_def int_wrap_wrap)
    have p: "int_wrap (int_add pn 1 + int k) = int_wrap (pn + int (Suc k))" for k
      unfolding int_add_def int_wrap_add_left by (simp add: algebra_simps)
    have o: "int_wrap (int_add off (int (length d)) + int (length (concat (take k (chunks rs))))) =
             int_wrap (off + int (length (concat (take (Suc k) (d # chunks rs)))))" for k
      unfolding int_add_def int_wrap_add_left by (simp add: algebra_simps)
    have tail: "received (fst (pass_through_for c fp tp rs (read_into b d)
                 (int_add off (int (length d))) (int_add pn 1))) =
      map (\<lambda>k. (int_wrap (pn + int (Suc k)),
                 int_wrap (off + int (length (concat (take (Suc k) (d # chunks rs))))),
                 int (length ((d # chunks rs) ! Suc k)))) [0..<length (chunks rs)]"
      unfolding IH p o by simp
    have up: "[0..<Suc m] = 0 # map Suc [0..<m]" for m
      by (simp add: upt_conv_Cons map_Suc_upt del: upt_Suc)
    have ch: "chunks ((d, None) # rs) = d # chunks rs" using Data(2) by (rule chunks_data)
    have head: "fst (pass_through_for c fp tp ((d, None) # rs) b off pn) =
       Read (c_from c) d None # relay c fp tp (read_into b d) (length d) off pn @
       fst (pass_through_for c fp tp rs (read_into b d) (int_add off (int (length d))) (int_add pn 1))"
      using Data(2) by (simp add: for_data)
    show ?thesis
      unfolding r head ch
      by (simp add: received_app received_relay tail up comp_def Cons.prems del: upt_Suc)
  qed
qed

lemma length_concat_replicate: "length (concat (replicate n xs)) = n * length xs"
  by (induction n) simp_all

lemma chunks_replicate:
  "d \<noteq> [] \<Longrightarrow> d' \<noteq> [] \<Longrightarrow> chunks (replicate n (d, None) @ [(d', None)]) = replicate n d @ [d']"
  by (induction n) (simp_all add: chunks_def successful_def)

lemma received_wrap_nth:
  assumes "k < length (chunks rs)"
  shows "received (fst (pass_through c rs)) ! k =
     (int_wrap (int k), int_wrap (int (length (concat (take k (chunks rs))))), int (length (chunks rs ! k)))"
proof -
  have z: "int_wrap 0 = 0" by (simp add: int_wrap_def)
  have "received (fst (pass_through c rs)) =
     map (\<lambda>k. (int_wrap (0 + int k), int_wrap (0 + int (length (concat (take k (chunks rs))))),
                int (length (chunks rs ! k))))
       [0..<length (chunks rs)]"
    unfolding received_pass_through using z z by (rule received_for_wrap)
  then show ?thesis using assms by simp
qed

text \<open>
  Claim C5, as the code has it. The offset and the packet number are \<^verbatim>\<open>int\<close>s (64 bits
  here). As long as the bytes a direction relays stay within that range (fewer than
  \<open>2 ^ 63\<close> in all), there is one \<^verbatim>\<open>Received\<close> line per chunk; the line of chunk \<open>k\<close>
  (counting from 0) carries the packet number \<open>k\<close>, as offset the number of bytes of the
  chunks before it, and the length of the chunk; packet numbers and offsets are strictly
  increasing along the lines; and the offset of a line is the offset of the line before
  it plus the length logged there.
\<close>

theorem pass_through_counters:
  assumes "length (concat (chunks rs)) < 2 ^ 63"
  shows "length (received (fst (pass_through c rs))) = length (chunks rs)
    \<and> (\<forall>k < length (chunks rs). received (fst (pass_through c rs)) ! k =
          (int k, int (length (concat (take k (chunks rs)))), int (length (chunks rs ! k))))
    \<and> sorted_wrt (\<lambda>x y. fst x < fst y \<and> fst (snd x) < fst (snd y)) (received (fst (pass_through c rs)))
    \<and> (\<forall>k. Suc k < length (chunks rs) \<longrightarrow>
          fst (snd (received (fst (pass_through c rs)) ! Suc k)) =
          fst (snd (received (fst (pass_through c rs)) ! k)) + snd (snd (received (fst (pass_through c rs)) ! k)))"
proof -
  let ?cs = "chunks rs"
  let ?R = "received (fst (pass_through c rs))"
  have ne: "\<forall>d \<in> set ?cs. d \<noteq> []" by (rule chunks_nonempty)
  have tot: "int (length (concat ?cs)) < 2 ^ 63" using assms by simp
  have "length ?cs \<le> length (concat ?cs)" using ne by (rule length_le_concat)
  then have cnt: "int (length ?cs) < 2 ^ 63" using tot by linarith
  have R: "?R = map (\<lambda>k. (int k, int (length (concat (take k ?cs))), int (length (?cs ! k))))
       [0..<length ?cs]"
    unfolding received_pass_through
    using received_for[of 0 0 rs c _ _ make_b] cnt tot by simp
  have len: "length ?R = length ?cs" by (simp add: R)
  have nth: "\<forall>k < length ?cs. ?R ! k =
          (int k, int (length (concat (take k ?cs))), int (length (?cs ! k)))"
    by (simp add: R)
  have srt: "sorted_wrt (\<lambda>x y. fst x < fst y \<and> fst (snd x) < fst (snd y)) ?R"
    unfolding sorted_wrt_iff_nth_less len
  proof (intro allI impI)
    fix i j assume ij: "i < j" "j < length ?cs"
    then have "length (concat (take i ?cs)) < length (concat (take j ?cs))"
      using ne by (intro concat_take_less) simp_all
    then show "fst (?R ! i) < fst (?R ! j) \<and> fst (snd (?R ! i)) < fst (snd (?R ! j))"
      using ij nth by simp
  qed
  have step: "\<forall>k. Suc k < length ?cs \<longrightarrow>
          fst (snd (?R ! Suc k)) = fst (snd (?R ! k)) + snd (snd (?R ! k))"
  proof (intro allI impI)
    fix k assume k: "Suc k < length ?cs"
    then have "k < length ?cs" by simp
    then show "fst (snd (?R ! Suc k)) = fst (snd (?R ! k)) + snd (snd (?R ! k))"
      using k nth concat_take_Suc[of k ?cs] by simp
  qed
  show ?thesis using len nth srt step by blast
qed

theorem pass_through_counters_witness:
  "length (concat (chunks [(''PING'', None), ([], None), (''OK'', None), ([], Some ''EOF'')])) < 2 ^ 63
   \<and> length (received (fst (pass_through
         \<lparr>c_from = \<lparr>local_addr = ''10.0.0.1:8080'', remote_addr = ''10.0.0.7:40000''\<rparr>,
          c_to = \<lparr>local_addr = ''10.0.0.1:40001'', remote_addr = ''10.0.0.9:80''\<rparr>,
          c_logger = Logger, c_binary_logger = From_logger, c_ack = Ack\<rparr>
         [(''PING'', None), ([], None), (''OK'', None), ([], Some ''EOF'')]))) = 2
   \<and> received (fst (pass_through
         \<lparr>c_from = \<lparr>local_addr = ''10.0.0.1:8080'', remote_addr = ''10.0.0.7:40000''\<rparr>,
          c_to = \<lparr>local_addr = ''10.0.0.1:40001'', remote_addr = ''10.0.0.9:80''\<rparr>,
          c_logger = Logger, c_binary_logger = From_logger, c_ack = Ack\<rparr>
         [(''PING'', None), ([], None), (''OK'', None), ([], Some ''EOF'')])) ! 1 = (1, 4, 2)"
proof -
  have cs: "chunks [(''PING'', None), ([], None), (''OK'', None), ([], Some ''EOF'')] = [''PING'', ''OK'']"
    by (simp add: chunks_def successful_def)
  have h: "length (concat (chunks [(''PING'', None), ([], None), (''OK'', None), ([], Some ''EOF'')])) < 2 ^ 63"
    by (simp add: cs)
  show ?thesis
    using h pass_through_counters [OF h] by (simp add: cs)
qed

text \<open>
  Claim C5, as stated for every sequence of reads, fails where the offset leaves the range
  of \<^verbatim>\<open>int\<close>: after \<open>2 ^ 50\<close> reads of 8192 bytes the direction has relayed \<open>2 ^ 63\<close>
  bytes, and the \<^verbatim>\<open>Received\<close> line of the next chunk carries the offset \<open>- 2 ^ 63\<close>, which
  is neither the number of bytes relayed before it nor more than the offset of the line
  before it.
\<close>

theorem pass_through_counters_counterexample:
  "fst (snd (received (fst (pass_through
       \<lparr>c_from = \<lparr>local_addr = ''10.0.0.1:8080'', remote_addr = ''10.0.0.7:40000''\<rparr>,
        c_to = \<lparr>local_addr = ''10.0.0.1:40001'', remote_addr = ''10.0.0.9:80''\<rparr>,
        c_logger = Logger, c_binary_logger = From_logger, c_ack = Ack\<rparr>
       (replicate (2 ^ 50) (replicate 8192 (CHR ''a''), None) @ [(''a'', None)]))) ! (2 ^ 50))) = - (2 ^ 63)
   \<and> fst (snd (received (fst (pass_through
       \<lparr>c_from = \<lparr>local_addr = ''10.0.0.1:8080'', remote_addr = ''10.0.0.7:40000''\<rparr>,
        c_to = \<lparr>local_addr = ''10.0.0.1:40001'', remote_addr = ''10.0.0.9:80''\<rparr>,
        c_logger = Logger, c_binary_logger = From_logger, c_ack = Ack\<rparr>
       (replicate (2 ^ 50) (replicate 8192 (CHR ''a''), None) @ [(''a'', None)]))) ! (2 ^ 50 - 1))) =
       2 ^ 63 - 8192
   \<and> length (concat (take (2 ^ 50)
         (chunks (replicate (2 ^ 50) (replicate 8192 (CHR ''a''), None) @ [(''a'', None)])))) = 2 ^ 63"
proof -
  let ?rs = "replicate (2 ^ 50) (replicate 8192 (CHR ''a''), None) @ [(''a'', None)]"
  have ne: "replicate 8192 (CHR ''a'') \<noteq> []" by (simp add: replicate_empty)
  have cs: "chunks ?rs = replicate (2 ^ 50) (replicate 8192 (CHR ''a'')) @ [''a'']"
    using ne by (intro chunks_replicate) simp_all
  have len: "length (chunks ?rs) = 2 ^ 50 + 1" unfolding cs by simp
  have t1: "length (concat (take (2 ^ 50) (chunks ?rs))) = 2 ^ 63"
    unfolding cs by (simp add: length_concat_replicate)
  have t0: "length (concat (take (2 ^ 50 - 1) (chunks ?rs))) = 2 ^ 63 - 8192"
    unfolding cs by (simp add: length_concat_replicate min_def)
  have w1: "int_wrap (2 ^ 63) = - (2 ^ 63)" by (simp add: int_wrap_def)
  have w0: "int_wrap (2 ^ 63 - 8192) = 2 ^ 63 - 8192" by (simp add: int_wrap_def)
  have k1: "(2 ^ 50 :: nat) < length (chunks ?rs)" unfolding len by simp
  have k0: "(2 ^ 50 - 1 :: nat) < length (chunks ?rs)" unfolding len by simp
  have i1: "int (length (concat (take (2 ^ 50) (chunks ?rs)))) = 2 ^ 63"
    unfolding t1 by simp
  have i0: "int (length (concat (take (2 ^ 50 - 1) (chunks ?rs)))) = 2 ^ 63 - 8192"
    unfolding t0 by simp
  show ?thesis
    using received_wrap_nth[OF k1] received_wrap_nth[OF k0] t1
    unfolding i1 i0 w1 w0 by simp
qed

lemma numbered_for:
  "numbered (fst (pass_through_for c fp tp rs b off pn)) =
   concat (map (\<lambda>(p, off, n). [(True, p), (False, p)])
     (received (fst (pass_through_for c fp tp rs b off pn))))"
proof (induction rs arbitrary: b off pn)
  case Nil
  then show ?case by (simp add: for_Nil)
next
  case (Cons r rs)
  show ?case
  proof (cases "r # rs" rule: reads_cases)
    case Nil then show ?thesis by simp
  next
    case (Err d e rs') then show ?thesis by (simp add: for_err)
  next
    case (Zero rs') then show ?thesis using Cons by (simp add: for_zero)
  next
    case (Data d rs') then show ?thesis using Cons
      by (simp add: for_data numbered_app numbered_relay received_app received_relay)
  qed
qed

lemma received_for_first:
  "map fst (take 1 (received (fst (pass_through_for c fp tp rs b off pn)))) =
   map (\<lambda>d. pn) (take 1 (chunks rs))"
proof (induction rs arbitrary: b)
  case Nil
  then show ?case by (simp add: for_Nil chunks_Nil)
next
  case (Cons r rs)
  show ?case
  proof (cases "r # rs" rule: reads_cases)
    case Nil then show ?thesis by simp
  next
    case (Err d e rs') then show ?thesis by (simp add: for_err chunks_err)
  next
    case (Zero rs') then show ?thesis using Cons by (simp add: for_zero chunks_zero)
  next
    case (Data d rs') then show ?thesis
      by (simp add: for_data chunks_data received_app received_relay)
  qed
qed

text \<open>
  Claim C10. Along the trace of a direction, the lines that carry a packet number come in
  pairs: the \<^verbatim>\<open>Received\<close> line of a chunk, then a \<^verbatim>\<open>Sent\<close> line with the same number,
  before the next \<^verbatim>\<open>Received\<close> line. The number of the first chunk, when there is one,
  is 0.
\<close>

theorem pass_through_sent_number:
  "numbered (fst (pass_through c rs)) =
     concat (map (\<lambda>(p, off, n). [(True, p), (False, p)]) (received (fst (pass_through c rs))))
   \<and> map fst (take 1 (received (fst (pass_through c rs)))) = map (\<lambda>d. 0) (take 1 (chunks rs))"
proof
  show "numbered (fst (pass_through c rs)) =
     concat (map (\<lambda>(p, off, n). [(True, p), (False, p)]) (received (fst (pass_through c rs))))"
    by (simp add: pass_through_fst numbered_app received_app numbered_for)
  show "map fst (take 1 (received (fst (pass_through c rs)))) = map (\<lambda>d. 0) (take 1 (chunks rs))"
    unfolding received_pass_through by (rule received_for_first)
qed

subsection \<open>Reads of zero bytes, and leaving the loop\<close>

lemma disconnected_relay: "Send ch (Line (Disconnected fp)) \<notin> set (relay c fp' tp b n off pn)"
  by (simp add: relay_def)

lemma disconnected_for:
  "(Send (c_logger c) (Line (Disconnected fp)) \<in> set (fst (pass_through_for c fp tp rs b off pn))) =
   (\<exists>r \<in> set rs. snd r \<noteq> None)"
proof (induction rs arbitrary: b off pn)
  case Nil
  then show ?case by (simp add: for_Nil)
next
  case (Cons r rs)
  show ?case
  proof (cases "r # rs" rule: reads_cases)
    case Nil then show ?thesis by simp
  next
    case (Err d e rs') then show ?thesis by (simp add: for_err)
  next
    case (Zero rs') then show ?thesis using Cons by (simp add: for_zero)
  next
    case (Data d rs') then show ?thesis using Cons
      by (simp add: for_data disconnected_relay)
  qed
qed

text \<open>
  Claim C8. A read of zero bytes with no error adds nothing to the trace but the call
  itself (no line, no binary chunk, no \<^verbatim>\<open>Write\<close>), and the loop goes on to the next
  read with the buffer, the offset and the packet number it had. The loop is left
  exactly when some read returns an error, and exactly then the \<^verbatim>\<open>Disconnected\<close> line
  is logged.
\<close>

theorem pass_through_zero_read:
  "pass_through_for c from_peer to_peer (([], None) # rs) b offset packet_n =
     (Read (c_from c) [] None # fst (pass_through_for c from_peer to_peer rs b offset packet_n),
      snd (pass_through_for c from_peer to_peer rs b offset packet_n))
   \<and> snd (pass_through c rs) = (\<exists>r \<in> set rs. snd r \<noteq> None)
   \<and> snd (pass_through c rs) =
       (Send (c_logger c) (Line (Disconnected (printable_addr (local_addr (c_from c)))))
          \<in> set (fst (pass_through c rs)))"
  by (simp add: for_zero pass_through_snd pass_through_fst disconnected_for)

subsection \<open>The session and its two directions\<close>

lemma ack_values_app: "ack_values (xs @ ys) = ack_values xs @ ack_values ys"
  by (induction xs rule: ack_values.induct) auto

lemma ack_values_relay: "ack_values (relay c fp tp b n off pn) = []"
  by (simp add: relay_def)

lemma ack_values_for: "ack_values (fst (pass_through_for c fp tp rs b off pn)) = []"
proof (induction rs arbitrary: b off pn)
  case Nil
  then show ?case by (simp add: for_Nil)
next
  case (Cons r rs)
  show ?case
  proof (cases "r # rs" rule: reads_cases)
    case Nil then show ?thesis by simp
  next
    case (Err d e rs') then show ?thesis by (simp add: for_err)
  next
    case (Zero rs') then show ?thesis using Cons by (simp add: for_zero)
  next
    case (Data d rs') then show ?thesis using Cons
      by (simp add: for_data ack_values_app ack_values_relay)
  qed
qed

lemma ack_values_pass_through:
  "c_ack c = Ack \<Longrightarrow> ack_values (fst (pass_through c rs)) = (if snd (pass_through c rs) then [True] else [])"
  by (simp add: pass_through_fst pass_through_snd ack_values_app ack_values_for)

lemma launched_app: "launched (xs @ ys) = launched xs @ launched ys"
  by (induction xs rule: launched.induct) auto

lemma sends_app: "sends (xs @ ys) = sends xs @ sends ys"
  by (induction xs rule: sends.induct) auto

lemma launched_launch: "launched (launch local remote conn_n target started) =
     [\<lparr>c_from = remote, c_to = local, c_logger = Logger, c_binary_logger = To_logger, c_ack = Ack\<rparr>,
      \<lparr>c_from = local, c_to = remote, c_logger = Logger, c_binary_logger = From_logger, c_ack = Ack\<rparr>]"
  by (simp add: launch_def)

lemma sends_launch: "sends (launch local remote conn_n target started) =
     [(Logger, Line (Connected target (format_time started)))]"
  by (simp add: launch_def)

lemma launched_finish: "launched (finish started finished) = []"
  by (simp add: finish_def)

lemma sends_finish: "sends (finish started finished) =
  [(Logger, Line (Finished (format_time started) finished started)),
       (Logger, Raw []), (From_logger, Raw []), (To_logger, Raw [])]"
  by (simp add: finish_def)

text \<open>
  Claim C7. A session whose dial succeeded starts exactly two directions, the one from the
  target to the client and the one from the client to the target. A direction signals
  on \<^verbatim>\<open>ack\<close> once, when its loop is left. Whichever of the two signals first, the session
  sends the \<^verbatim>\<open>Finished\<close> line exactly when both have signalled; the line is followed by
  the stop sentinel to the text sink and to the two binary sinks, in this order; and
  when a direction has not signalled, the session is still waiting and has sent nothing
  after the \<^verbatim>\<open>Connected\<close> line, so no sink has been told to stop.
\<close>

theorem session_waits_for_both:
  assumes A: "A = \<lparr>c_from = remote, c_to = local, c_logger = Logger,
                   c_binary_logger = To_logger, c_ack = Ack\<rparr>"
    and B: "B = \<lparr>c_from = local, c_to = remote, c_logger = Logger,
                   c_binary_logger = From_logger, c_ack = Ack\<rparr>"
    and acks: "acks = ack_values (fst (pass_through A rs_a)) @ ack_values (fst (pass_through B rs_b))
             \<or> acks = ack_values (fst (pass_through B rs_b)) @ ack_values (fst (pass_through A rs_a))"
  shows "launched (fst (process_connection local conn_n target (Inr remote) started finished acks)) = [A, B]
    \<and> sends (fst (process_connection local conn_n target (Inr remote) started finished acks)) =
        (Logger, Line (Connected target (format_time started))) #
        (if ack_values (fst (pass_through A rs_a)) = [True] \<and> ack_values (fst (pass_through B rs_b)) = [True]
         then [(Logger, Line (Finished (format_time started) finished started)),
               (Logger, Raw []), (From_logger, Raw []), (To_logger, Raw [])]
         else [])
    \<and> snd (process_connection local conn_n target (Inr remote) started finished acks) =
        (if ack_values (fst (pass_through A rs_a)) = [True] \<and> ack_values (fst (pass_through B rs_b)) = [True]
         then Ended else Waiting)"
proof -
  have a: "ack_values (fst (pass_through A rs_a)) = (if snd (pass_through A rs_a) then [True] else [])"
    by (rule ack_values_pass_through) (simp add: A)
  have b: "ack_values (fst (pass_through B rs_b)) = (if snd (pass_through B rs_b) then [True] else [])"
    by (rule ack_values_pass_through) (simp add: B)
  consider (both) "snd (pass_through A rs_a)" "snd (pass_through B rs_b)" "acks = [True, True]"
    | (one) "\<not> (snd (pass_through A rs_a) \<and> snd (pass_through B rs_b))" "acks = [True]"
    | (none) "\<not> (snd (pass_through A rs_a) \<and> snd (pass_through B rs_b))" "acks = []"
    using acks unfolding a b by (auto split: if_splits)
  then show ?thesis
  proof cases
    case both
    then show ?thesis unfolding a b
      by (simp add: process_connection_def launched_app sends_app launched_launch sends_launch
          launched_finish sends_finish A B)
  next
    case one
    then show ?thesis unfolding a b
      by (simp add: process_connection_def launched_app sends_app launched_launch sends_launch A B)
  next
    case none
    then show ?thesis unfolding a b
      by (simp add: process_connection_def launched_app sends_app launched_launch sends_launch A B)
  qed
qed

theorem session_waits_for_both_witness:
  "snd (process_connection
      \<lparr>local_addr = ''10.0.0.1:8080'', remote_addr = ''10.0.0.7:40000''\<rparr> 1 ''10.0.0.9:80''
      (Inr \<lparr>local_addr = ''10.0.0.1:40001'', remote_addr = ''10.0.0.9:80''\<rparr>)
      \<lparr>year = 2015, month = 11, day = 30, hour = 23, minute = 59, second = 59\<rparr>
      \<lparr>year = 2015, month = 12, day = 1, hour = 0, minute = 0, second = 7\<rparr>
      (ack_values (fst (pass_through
          \<lparr>c_from = \<lparr>local_addr = ''10.0.0.1:40001'', remote_addr = ''10.0.0.9:80''\<rparr>,
           c_to = \<lparr>local_addr = ''10.0.0.1:8080'', remote_addr = ''10.0.0.7:40000''\<rparr>,
           c_logger = Logger, c_binary_logger = To_logger, c_ack = Ack\<rparr>
          [(''PONG'', None), ([], Some ''EOF'')])) @
       ack_values (fst (pass_through
          \<lparr>c_from = \<lparr>local_addr = ''10.0.0.1:8080'', remote_addr = ''10.0.0.7:40000''\<rparr>,
           c_to = \<lparr>local_addr = ''10.0.0.1:40001'', remote_addr = ''10.0.0.9:80''\<rparr>,
           c_logger = Logger, c_binary_logger = From_logger, c_ack = Ack\<rparr>
          [(''PING'', None), ([], Some ''EOF'')])))) = Ended"
  using session_waits_for_both [OF refl refl disjI1 [OF refl],
      where remote = "\<lparr>local_addr = ''10.0.0.1:40001'', remote_addr = ''10.0.0.9:80''\<rparr>"
        and local = "\<lparr>local_addr = ''10.0.0.1:8080'', remote_addr = ''10.0.0.7:40000''\<rparr>"
        and rs_a = "[(''PONG'', None), ([], Some ''EOF'')]"
        and rs_b = "[(''PING'', None), ([], Some ''EOF'')]"
        and conn_n = 1 and target = "''10.0.0.9:80''"
        and started = "\<lparr>year = 2015, month = 11, day = 30, hour = 23, minute = 59, second = 59\<rparr>"
        and finished = "\<lparr>year = 2015, month = 12, day = 1, hour = 0, minute = 0, second = 7\<rparr>"]
  by (simp add: ack_values_pass_through pass_through_snd)

subsection \<open>Names of the log files\<close>

declare dec.simps [simp del]

lemma replicate_num: "replicate (numeral k) x = x # replicate (pred_numeral k) x"
  by (simp add: numeral_eq_Suc)

lemma length_dec: "n < 10 ^ k \<Longrightarrow> 0 < k \<Longrightarrow> length (dec n) \<le> k"
proof (induction k arbitrary: n)
  case 0
  then show ?case by simp
next
  case (Suc k)
  show ?case
  proof (cases "n < 10")
    case True
    then show ?thesis by (subst dec.simps) simp
  next
    case False
    with Suc.prems have k: "0 < k" by (cases k) auto
    have "n div 10 < 10 ^ k" using Suc.prems by (simp add: less_mult_imp_div_less mult.commute)
    then have "length (dec (n div 10)) \<le> k" using k by (rule Suc.IH)
    with False show ?thesis by (subst dec.simps) simp
  qed
qed

lemma length_pad0: "length s \<le> w \<Longrightarrow> length (pad0 w s) = w"
  by (simp add: pad0_def)

lemma length_pad2: "n < 100 \<Longrightarrow> length (pad0 2 (dec n)) = 2"
  using length_dec[of n 2] by (intro length_pad0) simp

lemma length_pad4: "n < 10000 \<Longrightarrow> length (pad0 4 (dec n)) = 4"
  using length_dec[of n 4] by (intro length_pad0) simp

lemma length_format_time: "valid_time t \<Longrightarrow> length (format_time t) = 19"
  by (simp add: valid_time_def format_time_def length_pad2 length_pad4)

lemma log_names_Nil: "log_names evs [] = []"
  by (induction evs "[] :: time list" rule: log_names.induct) auto

lemma log_names_launch:
  "log_names (Dial target # launch local remote conn_n target started @ evs) [t1, t2, t3] =
     [connection_log_name t1 conn_n (printable_addr (local_addr remote)) (printable_addr (remote_addr remote)),
      binary_log_name t2 conn_n (printable_addr (local_addr remote)),
      binary_log_name t3 conn_n (printable_addr (remote_addr remote))]"
  by (simp add: launch_def log_names_Nil)

lemma process_connection_launch:
  "\<exists>evs. fst (process_connection local conn_n target (Inr remote) started finished acks) =
     Dial target # launch local remote conn_n target started @ evs"
  by (cases "(local, remote, conn_n, target, started, finished, acks)" rule: relay_session.cases)
     (auto simp: process_connection_def)

text \<open>
  Claim C3, as the code has it. Each of the three loggers of a session reads the clock
  itself: the name of its file carries, right after \<^verbatim>\<open>log-\<close> or \<^verbatim>\<open>log-binary-\<close>, the
  19 characters of the logger's own reading in the layout \<^verbatim>\<open>YYYY.MM.DD-HH.MM.SS\<close>,
  then the padded connection number and the peer names. The session's \<open>started\<close> does
  not occur in the names.
\<close>

theorem log_names_own_clock:
  assumes "valid_time t1" "valid_time t2" "valid_time t3"
  shows "log_names (fst (process_connection local conn_n target (Inr remote) started finished acks))
           [t1, t2, t3] =
         [''log-'' @ format_time t1 @ ''-'' @ fmt_04d conn_n @ ''-'' @
            printable_addr (local_addr remote) @ ''-'' @ printable_addr (remote_addr remote) @ ''.log'',
          ''log-binary-'' @ format_time t2 @ ''-'' @ fmt_04d conn_n @ ''-'' @
            printable_addr (local_addr remote) @ ''.log'',
          ''log-binary-'' @ format_time t3 @ ''-'' @ fmt_04d conn_n @ ''-'' @
            printable_addr (remote_addr remote) @ ''.log'']
    \<and> length (format_time t1) = 19 \<and> length (format_time t2) = 19 \<and> length (format_time t3) = 19"
proof -
  obtain evs where "fst (process_connection local conn_n target (Inr remote) started finished acks) =
     Dial target # launch local remote conn_n target started @ evs"
    using process_connection_launch by blast
  then show ?thesis
    using assms
    by (simp only: log_names_launch length_format_time)
       (simp add: connection_log_name_def binary_log_name_def)
qed

theorem log_names_own_clock_witness:
  "valid_time \<lparr>year = 2015, month = 11, day = 30, hour = 23, minute = 59, second = 59\<rparr>
   \<and> valid_time \<lparr>year = 2015, month = 12, day = 1, hour = 0, minute = 0, second = 0\<rparr>
   \<and> length (format_time \<lparr>year = 2015, month = 12, day = 1, hour = 0, minute = 0, second = 0\<rparr>) = 19
   \<and> length (log_names (fst (process_connection
      \<lparr>local_addr = ''10.0.0.1:8080'', remote_addr = ''10.0.0.7:40000''\<rparr> 1 ''10.0.0.9:80''
      (Inr \<lparr>local_addr = ''10.0.0.1:40001'', remote_addr = ''10.0.0.9:80''\<rparr>)
      \<lparr>year = 2015, month = 11, day = 30, hour = 23, minute = 59, second = 59\<rparr>
      \<lparr>year = 2015, month = 12, day = 1, hour = 0, minute = 0, second = 7\<rparr> []))
     [\<lparr>year = 2015, month = 11, day = 30, hour = 23, minute = 59, second = 59\<rparr>,
      \<lparr>year = 2015, month = 12, day = 1, hour = 0, minute = 0, second = 0\<rparr>,
      \<lparr>year = 2015, month = 12, day = 1, hour = 0, minute = 0, second = 0\<rparr>]) = 3"
proof -
  have v0: "valid_time \<lparr>year = 2015, month = 11, day = 30, hour = 23, minute = 59, second = 59\<rparr>"
    by (simp add: valid_time_def)
  have v1: "valid_time \<lparr>year = 2015, month = 12, day = 1, hour = 0, minute = 0, second = 0\<rparr>"
    by (simp add: valid_time_def)
  show ?thesis
    using v0 v1 log_names_own_clock [OF v0 v1 v1,
      where local = "\<lparr>local_addr = ''10.0.0.1:8080'', remote_addr = ''10.0.0.7:40000''\<rparr>"
        and conn_n = 1 and target = "''10.0.0.9:80''"
        and remote = "\<lparr>local_addr = ''10.0.0.1:40001'', remote_addr = ''10.0.0.9:80''\<rparr>"
        and started = "\<lparr>year = 2015, month = 11, day = 30, hour = 23, minute = 59, second = 59\<rparr>"
        and finished = "\<lparr>year = 2015, month = 12, day = 1, hour = 0, minute = 0, second = 7\<rparr>"
        and acks = "[]"]
    by simp
qed

text \<open>
  Claim C3, as stated, fails: a session started at 23:59:59 whose binary loggers read
  the clock one second later has a text log named after 23.59.59 and binary logs named
  after 00.00.00 of the next day.
\<close>

theorem log_names_counterexample:
  "log_names (fst (process_connection
      \<lparr>local_addr = ''10.0.0.1:8080'', remote_addr = ''10.0.0.7:40000''\<rparr> 1 ''10.0.0.9:80''
      (Inr \<lparr>local_addr = ''10.0.0.1:40001'', remote_addr = ''10.0.0.9:80''\<rparr>)
      \<lparr>year = 2015, month = 11, day = 30, hour = 23, minute = 59, second = 59\<rparr>
      \<lparr>year = 2015, month = 12, day = 1, hour = 0, minute = 0, second = 7\<rparr> []))
     [\<lparr>year = 2015, month = 11, day = 30, hour = 23, minute = 59, second = 59\<rparr>,
      \<lparr>year = 2015, month = 12, day = 1, hour = 0, minute = 0, second = 0\<rparr>,
      \<lparr>year = 2015, month = 12, day = 1, hour = 0, minute = 0, second = 0\<rparr>] =
   [''log-2015.11.30-23.59.59-0001-10.0.0.1-40001-10.0.0.9-80.log'',
    ''log-binary-2015.12.01-00.00.00-0001-10.0.0.1-40001.log'',
    ''log-binary-2015.12.01-00.00.00-0001-10.0.0.9-80.log'']
   \<and> format_time \<lparr>year = 2015, month = 11, day = 30, hour = 23, minute = 59, second = 59\<rparr> =
       ''2015.11.30-23.59.59''"
  by (simp add: process_connection_def launch_def connection_log_name_def binary_log_name_def
      printable_addr_def format_time_def fmt_04d_def pad0_def dec.simps replicate_num)

subsection \<open>The command line\<close>

lemma set_flag_actual:
  "name \<in> set formal \<Longrightarrow> set (actual f) \<subseteq> set formal \<Longrightarrow> distinct (actual f) \<Longrightarrow>
   set (actual (set_flag f name v)) \<subseteq> set formal \<and> distinct (actual (set_flag f name v))"
  by (auto simp: set_flag_def)

lemma flag_parse_actual:
  "flag_parse f args = Inr (f', rest) \<Longrightarrow> set (actual f) \<subseteq> set formal \<Longrightarrow> distinct (actual f) \<Longrightarrow>
   set (actual f') \<subseteq> set formal \<and> distinct (actual f')"
proof (induction f args rule: flag_parse.induct)
  case (1 f)
  then show ?case by simp
next
  case (2 f s args)
  show ?case
  proof (cases "length s < 2 \<or> s ! 0 \<noteq> CHR ''-'' \<or> (s ! 1 = CHR ''-'' \<and> length s = 2)")
    case True
    then show ?thesis using "2.prems" by (auto split: if_splits)
  next
    case False
    note stop = this
    from "2.prems"(1) stop have ok: "\<not> (length (flag_text s) = 0 \<or> flag_text s ! 0 = CHR ''-'' \<or> flag_text s ! 0 = CHR ''='')"
      and nm: "flag_name s \<in> set formal"
      by (auto split: if_splits)
    have inv: "set (actual (set_flag f (flag_name s) v)) \<subseteq> set formal \<and>
               distinct (actual (set_flag f (flag_name s) v))" for v
      using nm "2.prems"(2,3) by (rule set_flag_actual)
    show ?thesis
    proof (cases "has_value s")
      case True
      with "2.prems"(1) stop ok nm
      have "flag_parse (set_flag f (flag_name s) (flag_value s)) args = Inr (f', rest)"
        by (simp split: if_splits)
      then show ?thesis using "2.IH"(1) stop ok nm True inv by blast
    next
      case False
      with "2.prems"(1) stop ok nm obtain v args' where args: "args = v # args'"
        and p: "flag_parse (set_flag f (flag_name s) v) args' = Inr (f', rest)"
        by (cases args) (auto split: if_splits)
      show ?thesis using "2.IH"(2)[OF _ _ _ _ _ args p] stop ok nm False inv by blast
    qed
  qed
qed

lemma actual_three:
  assumes "set (actual f) \<subseteq> set formal" "distinct (actual f)"
  shows "(NFlag f = 3) = (set (actual f) = {''host'', ''port'', ''listen_port''})"
proof
  assume "NFlag f = 3"
  then have "card (set (actual f)) = 3" using assms(2) by (simp add: NFlag_def distinct_card)
  moreover have "card (set formal) = 3" by (simp add: formal_def)
  ultimately have "set (actual f) = set formal"
    using assms(1) by (intro card_subset_eq) simp_all
  then show "set (actual f) = {''host'', ''port'', ''listen_port''}" by (simp add: formal_def)
next
  assume "set (actual f) = {''host'', ''port'', ''listen_port''}"
  then have "card (set (actual f)) = 3" by simp
  then show "NFlag f = 3" using assms(2) by (simp add: NFlag_def distinct_card)
qed

text \<open>
  Claim C9, as the code has it. A command line that the \<^verbatim>\<open>flag\<close> package rejects never
  reaches the check of line 163: the package reports and exits with its own status.
  On a command line it accepts, only the three options can have been set; when one of
  them is missing the process prints the usage and the defaults and exits with status 1
  without listening, and when all three are set it announces the target and listens,
  whatever arguments follow the options.
\<close>

theorem main_usage:
  "case flag_parse default_flags args of
     Inl e \<Rightarrow> main args listen_err accepts = ([Flag_failure e], Exited (flag_exit e))
   | Inr (f, rest) \<Rightarrow>
       set (actual f) \<subseteq> {''host'', ''port'', ''listen_port''} \<and>
       (if set (actual f) = {''host'', ''port'', ''listen_port''}
        then take 2 (fst (main args listen_err accepts)) =
               [Printf ''Start listening on port %s and forwarding data to %s\<newline>''
                  [listen_port f, JoinHostPort (host f) (port f)],
                Listen ('':'' @ listen_port f)]
        else main args listen_err accepts =
               ([Printf ''usage: gotcpspy -host target_host -port target_port -listen_port local_port\<newline>'' [],
                 Print_defaults], Exited 1))"
proof (cases "flag_parse default_flags args")
  case (Inl e)
  then show ?thesis by (simp add: main_def)
next
  case (Inr p)
  obtain f rest where p: "p = (f, rest)" by (cases p)
  have inv: "set (actual f) \<subseteq> set formal \<and> distinct (actual f)"
    using Inr unfolding p by (rule flag_parse_actual) (simp_all add: default_flags_def)
  then have three: "(NFlag f = 3) = (set (actual f) = {''host'', ''port'', ''listen_port''})"
    by (intro actual_three) simp_all
  have sub: "set (actual f) \<subseteq> {''host'', ''port'', ''listen_port''}"
    using inv by (simp add: formal_def)
  show ?thesis
  proof (cases "NFlag f = 3")
    case True
    then show ?thesis using Inr sub three unfolding p
      by (cases listen_err) (auto simp: main_def split: prod.splits)
  next
    case False
    then show ?thesis using Inr sub three unfolding p
      by (simp add: main_def)
  qed
qed

text \<open>
  Claim C9, as stated, fails for extra options and arguments: with the three options and
  a fourth, undefined one, the exit status is 2 and comes from the \<^verbatim>\<open>flag\<close> package;
  with the three options and one more argument, the listener starts.
\<close>

theorem main_extra_counterexample:
  "main [''-host'', ''h'', ''-port'', ''80'', ''-listen_port'', ''8080'', ''-verbose''] None [] =
     ([Flag_failure (Not_defined ''verbose'')], Exited 2)
   \<and> main [''-host'', ''h'', ''-port'', ''80'', ''-listen_port'', ''8080'', ''extra''] None [] =
     ([Printf ''Start listening on port %s and forwarding data to %s\<newline>'' [''8080'', ''h:80''],
       Listen '':8080''], Accepting)"
  by (simp add: main_def default_flags_def flag_text_def flag_name_def flag_value_def has_value_def
      formal_def set_flag_def flag_exit_def NFlag_def JoinHostPort_def)

subsection \<open>A dial that fails\<close>

text \<open>
  Claim C1 is not what the code does. When the dial fails, \<^verbatim>\<open>process_connection\<close> reports
  the failure and then, for want of a \<^verbatim>\<open>return\<close>, calls a method of the nil connection
  and panics, before any logger is started. The panic ends the program: the accept loop
  takes no further connection. Here the first of two clients meets a refused dial, and
  the second is never accepted.
\<close>

theorem dial_failure_panics:
  "process_connection local conn_n target (Inl err) started finished acks =
     ([Dial target, Printf ''Unable to connect to %s, %v\<newline>'' [target, err],
       Panic ''invalid memory address or nil pointer dereference''], Panicking)
   \<and> accept_loop target conn_n
       (Inr (conn, \<lparr>env_dialed = Inl err, env_started = started, env_finished = finished,
                    env_acks = acks\<rparr>) # accepts) =
     ([Accept (Some conn), Go (Process_connection conn conn_n target)], Crashed)
   \<and> main [''-host'', ''10.0.0.9'', ''-port'', ''80'', ''-listen_port'', ''8080''] None
       [Inr (\<lparr>local_addr = ''10.0.0.1:8080'', remote_addr = ''10.0.0.7:40000''\<rparr>,
             \<lparr>env_dialed = Inl ''connection refused'',
              env_started = \<lparr>year = 2015, month = 11, day = 30, hour = 23, minute = 59, second = 59\<rparr>,
              env_finished = \<lparr>year = 2015, month = 12, day = 1, hour = 0, minute = 0, second = 7\<rparr>,
              env_acks = []\<rparr>),
        Inr (\<lparr>local_addr = ''10.0.0.1:8080'', remote_addr = ''10.0.0.8:40002''\<rparr>,
             \<lparr>env_dialed = Inr \<lparr>local_addr = ''10.0.0.1:40001'', remote_addr = ''10.0.0.9:80''\<rparr>,
              env_started = \<lparr>year = 2015, month = 12, day = 1, hour = 0, minute = 0, second = 1\<rparr>,
              env_finished = \<lparr>year = 2015, month = 12, day = 1, hour = 0, minute = 0, second = 7\<rparr>,
              env_acks = [True, True]\<rparr>)] =
     ([Printf ''Start listening on port %s and forwarding data to %s\<newline>'' [''8080'', ''10.0.0.9:80''],
       Listen '':8080'',
       Accept (Some \<lparr>local_addr = ''10.0.0.1:8080'', remote_addr = ''10.0.0.7:40000''\<rparr>),
       Go (Process_connection \<lparr>local_addr = ''10.0.0.1:8080'', remote_addr = ''10.0.0.7:40000''\<rparr> 1
             ''10.0.0.9:80'')], Crashed)"
  by (simp add: process_connection_def main_def default_flags_def flag_text_def flag_name_def
      flag_value_def has_value_def formal_def set_flag_def flag_exit_def NFlag_def JoinHostPort_def)

subsection \<open>The binary log and the shared buffer\<close>

text \<open>
  When the sink writes each chunk before the direction reads again, the file is what the
  direction relayed; and whatever the schedule, the direction itself does what
  \<^verbatim>\<open>pass_through\<close> says.
\<close>

lemma binary_log_prompt:
  "map_option (\<lambda>m. (m_file m, written (m_trace m), m_pc m, m_sink m))
     (run \<lparr>c_from = \<lparr>local_addr = ''10.0.0.1:8080'', remote_addr = ''10.0.0.7:40000''\<rparr>,
           c_to = \<lparr>local_addr = ''10.0.0.1:40001'', remote_addr = ''10.0.0.9:80''\<rparr>,
           c_logger = Logger, c_binary_logger = From_logger, c_ack = Ack\<rparr>
        [Direction, Direction, Direction, Direction, Sink, Sink, Sink,
         Direction, Direction, Direction, Direction, Direction,
         Direction, Direction, Direction, Sink, Sink, Sink,
         Direction, Direction, Direction, Direction, Direction,
         Direction, Direction, Direction, Direction]
        (init [(''AB'', None), (''XY'', None), ([], Some ''EOF'')])) =
   Some (''ABXY'',
         [(\<lparr>local_addr = ''10.0.0.1:40001'', remote_addr = ''10.0.0.9:80''\<rparr>, ''AB''),
          (\<lparr>local_addr = ''10.0.0.1:40001'', remote_addr = ''10.0.0.9:80''\<rparr>, ''XY'')],
         At_end, At_recv)"
  by (simp add: init_def make_b_def read_into_def)

lemma machine_trace_is_pass_through:
  "map_option m_trace
     (run \<lparr>c_from = \<lparr>local_addr = ''10.0.0.1:8080'', remote_addr = ''10.0.0.7:40000''\<rparr>,
           c_to = \<lparr>local_addr = ''10.0.0.1:40001'', remote_addr = ''10.0.0.9:80''\<rparr>,
           c_logger = Logger, c_binary_logger = From_logger, c_ack = Ack\<rparr>
        [Direction, Direction, Direction, Direction, Direction, Direction, Direction, Direction,
         Direction, Sink, Sink, Sink,
         Direction, Direction, Direction, Direction, Direction, Direction, Direction,
         Direction, Sink, Sink, Sink, Direction, Direction, Direction, Direction]
        (init [(''AB'', None), (''XY'', None), ([], Some ''EOF'')])) =
   Some (fst (pass_through \<lparr>c_from = \<lparr>local_addr = ''10.0.0.1:8080'', remote_addr = ''10.0.0.7:40000''\<rparr>,
           c_to = \<lparr>local_addr = ''10.0.0.1:40001'', remote_addr = ''10.0.0.9:80''\<rparr>,
           c_logger = Logger, c_binary_logger = From_logger, c_ack = Ack\<rparr>
          [(''AB'', None), (''XY'', None), ([], Some ''EOF'')]))"
  by (simp add: init_def make_b_def read_into_def pass_through_def for_data for_err relay_def)

text \<open>
  Claim C4 is not what the code does. The chunk that a direction enqueues to its binary
  sink is the slice \<^verbatim>\<open>b[:n]\<close> of the buffer that its next \<^verbatim>\<open>Read(b)\<close> fills again, and
  nothing orders the sink's \<^verbatim>\<open>f.Write\<close> before that read. Here the direction reads
  \<^verbatim>\<open>AB\<close>, hands the slice to the sink, relays \<^verbatim>\<open>AB\<close> and reads \<^verbatim>\<open>XY\<close> before the sink
  writes: the bytes relayed are \<^verbatim>\<open>AB\<close>, \<^verbatim>\<open>XY\<close>, and the binary log holds \<^verbatim>\<open>XYXY\<close>.
\<close>

theorem binary_log_overwritten:
  "map_option (\<lambda>m. (m_file m, written (m_trace m), m_pc m, m_sink m))
     (run \<lparr>c_from = \<lparr>local_addr = ''10.0.0.1:8080'', remote_addr = ''10.0.0.7:40000''\<rparr>,
           c_to = \<lparr>local_addr = ''10.0.0.1:40001'', remote_addr = ''10.0.0.9:80''\<rparr>,
           c_logger = Logger, c_binary_logger = From_logger, c_ack = Ack\<rparr>
        [Direction, Direction, Direction, Direction, Direction, Direction, Direction, Direction,
         Direction, Sink, Sink, Sink,
         Direction, Direction, Direction, Direction, Direction, Direction, Direction,
         Direction, Sink, Sink, Sink, Direction, Direction, Direction, Direction]
        (init [(''AB'', None), (''XY'', None), ([], Some ''EOF'')])) =
   Some (''XYXY'',
         [(\<lparr>local_addr = ''10.0.0.1:40001'', remote_addr = ''10.0.0.9:80''\<rparr>, ''AB''),
          (\<lparr>local_addr = ''10.0.0.1:40001'', remote_addr = ''10.0.0.9:80''\<rparr>, ''XY'')],
         At_end, At_recv)"
  by (simp add: init_def make_b_def read_into_def)

end
